theory Spec2Isabelle
  imports Main
begin

section \<open>The Anchore scan client and the admission response helper\<close>

text \<open>
  A shallow embedding of \<^verbatim>\<open>pkg/anchore/client.go\<close> and of the helper
  \<^verbatim>\<open>toAdmissionResponse\<close> of the admission server.

  Go strings and byte slices are \<open>string\<close> (a list of bytes); a nil byte slice is the
  empty string. A Go \<^verbatim>\<open>error\<close> value is the pair's second component of type
  \<open>string option\<close>: \<open>None\<close> is \<^verbatim>\<open>nil\<close>, \<open>Some m\<close> is an error whose
  \<^verbatim>\<open>Error()\<close> text is \<open>m\<close> (every error the client builds comes from
  \<^verbatim>\<open>fmt.Errorf\<close>, and the only thing the code ever reads from an error is its text).
  A pointer result is an \<open>option\<close>. The two-valued returns of Go stay pairs, so that
  "a value together with an error" is a value of the model and not excluded by a type.

  Calls to \<^verbatim>\<open>klog.Infof\<close>, \<^verbatim>\<open>klog.Warningf\<close> and \<^verbatim>\<open>klog.Errorf\<close> only write
  log lines and are left out; \<^verbatim>\<open>klog.Fatal\<close> ends the process and is the outcome
  \<open>Exits\<close>.
\<close>

subsection \<open>Outcomes of a call\<close>

text \<open>
  A call either returns its results, or panics (an index out of range, a nil
  dereference), or ends the process through \<^verbatim>\<open>klog.Fatal\<close>.
\<close>

datatype 'a outcome = Returns 'a | Panics string | Exits string

subsection \<open>Data\<close>

type_synonym error = "string option"

record AnchoreClient =
  baseUrl :: string
  secureToken :: string

text \<open>
  Modelled from the spec: the declarations of \<^verbatim>\<open>ScanReport\<close>, \<^verbatim>\<open>ScanReports\<close> and
  \<^verbatim>\<open>Image\<close> are not among the sources. A scan report carries a status field, the one
  field the client reads; an image record carries its digest. The report collection is
  a sequence of mappings from digest to a mapping from full tag to a sequence of
  reports. A Go map is an association list looked up with \<open>map_of\<close>; the order of the
  list stands for the order in which \<^verbatim>\<open>MapKeys\<close> enumerates the map in the run at
  hand (Go leaves that order open).
\<close>

record ScanReport =
  Status :: string

record Image =
  ImageDigest :: string

type_synonym TagReports = "(string \<times> ScanReport list) list"
type_synonym ScanReports = "(string \<times> TagReports) list list"

subsection \<open>The remote engine and the library calls\<close>

record request =
  req_method :: string
  req_url :: string
  req_params :: "(string \<times> string) list"
  req_user :: string
  req_password :: string

text \<open>
  What \<^verbatim>\<open>client.Do\<close> followed by \<^verbatim>\<open>ioutil.ReadAll\<close> can yield: the transport
  fails, or a response arrives (with its status code) whose body cannot be read, or a
  response arrives with status code and body.
\<close>

datatype http_result =
    DoFails string
  | ReadFails int string
  | Responds int string

text \<open>
  The parts of the program's surroundings the client calls into, taken as parameters:
  the remote engine as a state machine answering requests, \<^verbatim>\<open>http.NewRequest\<close>
  (which can reject a method or URL), and \<^verbatim>\<open>json.Unmarshal\<close> at the two types the
  client decodes.
\<close>

record 's engine =
  send :: "request \<Rightarrow> 's \<Rightarrow> http_result \<times> 's"
  newRequestErr :: "string \<Rightarrow> string \<Rightarrow> string option"
  unmarshalReports :: "string \<Rightarrow> string + ScanReports"
  unmarshalImages :: "string \<Rightarrow> string + Image list"

text \<open>
  The observable effects of the client: the requests it sends and the seconds it
  sleeps, in order.
\<close>

datatype event = EvRequest request | EvSleep nat

record 's world =
  remote :: 's
  events :: "event list"

subsection \<open>Formatting and case conversion\<close>

text \<open>The \<^verbatim>\<open>%d\<close> verb of \<^verbatim>\<open>fmt\<close>: decimal digits, with a minus sign below zero.\<close>

fun string_of_nat :: "nat \<Rightarrow> string" where
  "string_of_nat n =
     (if n < 10 then [char_of (48 + n)]
      else string_of_nat (n div 10) @ [char_of (48 + n mod 10)])"

declare string_of_nat.simps [simp del]

definition string_of_int :: "int \<Rightarrow> string" where
  "string_of_int i =
     (if i < 0 then CHR ''-'' # string_of_nat (nat (- i)) else string_of_nat (nat i))"

text \<open>
  \<^verbatim>\<open>strings.ToLower\<close> on the bytes of a string: the letters A to Z become a to z. Go
  also lowers letters outside ASCII and replaces bytes that are not valid UTF-8; none
  of these lowers to one of the letters p, a and s, so the comparison of the result
  with \<open>pass\<close>, the only use the client makes of it, is the same.
\<close>

definition toLowerChar :: "char \<Rightarrow> char" where
  "toLowerChar c =
     (let n = (of_char c :: nat) in if 65 \<le> n \<and> n \<le> 90 then char_of (n + 32) else c)"

definition ToLower :: "string \<Rightarrow> string" where
  "ToLower s = map toLowerChar s"

subsection \<open>The client\<close>

definition errNotFound :: string where
  "errNotFound = ''response from Anchore: 404''"

text \<open>
  The request \<^verbatim>\<open>anchoreRequest\<close> builds: method, full URL, the body parameters (which
  the code sends as their JSON encoding), and basic authentication with the token as
  user name and an empty password.
\<close>

definition buildRequest ::
  "AnchoreClient \<Rightarrow> string \<Rightarrow> (string \<times> string) list \<Rightarrow> string \<Rightarrow> request" where
  "buildRequest c path bodyParams method =
     \<lparr>req_method = method, req_url = baseUrl c @ path, req_params = bodyParams,
      req_user = secureToken c, req_password = []\<rparr>"

definition anchoreRequest ::
  "'s engine \<Rightarrow> AnchoreClient \<Rightarrow> string \<Rightarrow> (string \<times> string) list \<Rightarrow> string \<Rightarrow> 's world
   \<Rightarrow> (string \<times> error) outcome \<times> 's world" where
  "anchoreRequest E c path bodyParams method w =
     (let fullURL = baseUrl c @ path in
      case newRequestErr E method fullURL of
        Some e \<Rightarrow> (Exits e, w)
      | None \<Rightarrow>
          (let req = buildRequest c path bodyParams method;
               (resp, s') = send E req (remote w);
               w' = w\<lparr>remote := s', events := events w @ [EvRequest req]\<rparr>
           in case resp of
                DoFails e \<Rightarrow>
                  (Returns ([], Some (''failed to complete request to Anchore: '' @ e)), w')
              | ReadFails st e \<Rightarrow>
                  (Returns ([], Some (''failed to complete request to Anchore: '' @ e)), w')
              | Responds st bodyText \<Rightarrow>
                  if st \<noteq> 200
                  then (Returns ([], Some (''response from Anchore: '' @ string_of_int st)), w')
                  else (Returns (bodyText, None), w')))"

text \<open>The path \<^verbatim>\<open>getReport\<close> formats with \<^verbatim>\<open>fmt.Sprintf\<close>.\<close>

definition reportPath :: "string \<Rightarrow> string \<Rightarrow> string" where
  "reportPath digest tag =
     ''/images/'' @ digest @ ''/check?tag='' @ tag @ ''&history=false&detail=true''"

definition getReport ::
  "'s engine \<Rightarrow> AnchoreClient \<Rightarrow> string \<Rightarrow> string \<Rightarrow> 's world
   \<Rightarrow> (ScanReport option \<times> error) outcome \<times> 's world" where
  "getReport E c digest tag w =
     (let path = reportPath digest tag in
      case anchoreRequest E c path [] ''GET'' w of
        (Exits e, w') \<Rightarrow> (Exits e, w')
      | (Panics p, w') \<Rightarrow> (Panics p, w')
      | (Returns (body, err), w') \<Rightarrow>
          if err \<noteq> None \<and> err = Some errNotFound then (Returns (None, err), w')
          else if err \<noteq> None then (Returns (None, err), w')
          else
            (case unmarshalReports E body of
               Inl e \<Rightarrow> (Returns (None, Some e), w')
             | Inr result \<Rightarrow>
                 if length result = 0
                 then (Returns (None, Some ''Scan report list is empty''), w')
                 else if length result > 1
                 then (Returns (None, Some ''Unexpected scan report: multiple entries''), w')
                 else
                   (case map_of (hd result) digest of
                      None \<Rightarrow>
                        (Returns (None, Some ''Digest in the scan report does not match''), w')
                    | Some tags \<Rightarrow>
                        (case map fst tags of
                           [] \<Rightarrow> (Panics ''index out of range [0] with length 0'', w')
                         | fullTag # _ \<Rightarrow>
                             (case map_of tags fullTag of
                                None \<Rightarrow> (Panics ''index out of range [0] with length 0'', w')
                              | Some [] \<Rightarrow> (Panics ''index out of range [0] with length 0'', w')
                              | Some (r # _) \<Rightarrow> (Returns (Some r, None), w'))))))"

definition getStatus ::
  "'s engine \<Rightarrow> AnchoreClient \<Rightarrow> string \<Rightarrow> string \<Rightarrow> 's world
   \<Rightarrow> (bool \<times> error) outcome \<times> 's world" where
  "getStatus E c digest tag w =
     (case getReport E c digest tag w of
        (Exits e, w') \<Rightarrow> (Exits e, w')
      | (Panics p, w') \<Rightarrow> (Panics p, w')
      | (Returns (result, err), w') \<Rightarrow>
          if err \<noteq> None then (Returns (False, err), w')
          else
            (case result of
               None \<Rightarrow> (Panics ''nil pointer dereference'', w')
             | Some r \<Rightarrow>
                 if ToLower (Status r) = ''pass'' then (Returns (True, None), w')
                 else (Returns (False, Some ''Scan result is FAILED''), w')))"

definition getDigest ::
  "'s engine \<Rightarrow> AnchoreClient \<Rightarrow> string \<Rightarrow> 's world
   \<Rightarrow> (string \<times> error) outcome \<times> 's world" where
  "getDigest E c imageRef w =
     (let params = [(''tag'', imageRef), (''history'', ''true'')] in
      case anchoreRequest E c ''/images'' params ''GET'' w of
        (Exits e, w') \<Rightarrow> (Exits e, w')
      | (Panics p, w') \<Rightarrow> (Panics p, w')
      | (Returns (body, err), w') \<Rightarrow>
          if err \<noteq> None then (Returns ([], err), w')
          else
            (case unmarshalImages E body of
               Inl e \<Rightarrow>
                 (Returns ([], Some (''failed to unmarshal JSON from response: '' @ e)), w')
             | Inr images \<Rightarrow>
                 (case images of
                    [] \<Rightarrow> (Panics ''index out of range [0] with length 0'', w')
                  | im # _ \<Rightarrow> (Returns (ImageDigest im, None), w'))))"

definition addImage ::
  "'s engine \<Rightarrow> AnchoreClient \<Rightarrow> string \<Rightarrow> 's world \<Rightarrow> error outcome \<times> 's world" where
  "addImage E c img w =
     (let params = [(''tag'', img)] in
      case anchoreRequest E c ''/images'' params ''POST'' w of
        (Exits e, w') \<Rightarrow> (Exits e, w')
      | (Panics p, w') \<Rightarrow> (Panics p, w')
      | (Returns (_, err), w') \<Rightarrow>
          if err \<noteq> None then (Returns err, w') else (Returns None, w'))"

text \<open>
  The parameter \<^verbatim>\<open>image\<close> of the source is written \<open>img\<close>, the name \<open>image\<close> being
  a constant of HOL. \<^verbatim>\<open>time.Sleep(time.Second)\<close> is recorded as an event.
\<close>

definition sleepSecond :: "'s world \<Rightarrow> 's world" where
  "sleepSecond w = w\<lparr>events := events w @ [EvSleep 1]\<rparr>"

text \<open>
  The \<^verbatim>\<open>for\<close> loop of \<^verbatim>\<open>GetImageDigest\<close>, entered with the current value of
  \<^verbatim>\<open>count\<close>.
\<close>

function getDigestLoop ::
  "'s engine \<Rightarrow> AnchoreClient \<Rightarrow> string \<Rightarrow> nat \<Rightarrow> 's world
   \<Rightarrow> (string \<times> error) outcome \<times> 's world" where
  "getDigestLoop E c img count w =
     (case getDigest E c img w of
        (Exits e, w') \<Rightarrow> (Exits e, w')
      | (Panics p, w') \<Rightarrow> (Panics p, w')
      | (Returns (digest, err), w') \<Rightarrow>
          if err = None then (Returns (digest, err), w')
          else if count \<ge> 5 then (Returns (digest, err), w')
          else getDigestLoop E c img (count + 1) (sleepSecond w'))"
  by pat_completeness auto
termination
  by (relation "measure (\<lambda>(E, c, img, count, w). 5 - count)") auto

declare getDigestLoop.simps [simp del]

definition GetImageDigest ::
  "'s engine \<Rightarrow> AnchoreClient \<Rightarrow> string \<Rightarrow> 's world
   \<Rightarrow> (string \<times> error) outcome \<times> 's world" where
  "GetImageDigest E c img w =
     (case addImage E c img w of
        (Exits e, w') \<Rightarrow> (Exits e, w')
      | (Panics p, w') \<Rightarrow> (Panics p, w')
      | (Returns err, w') \<Rightarrow>
          if err \<noteq> None then (Returns ([], err), w')
          else getDigestLoop E c img 0 w')"

definition CheckImage ::
  "'s engine \<Rightarrow> AnchoreClient \<Rightarrow> string \<Rightarrow> 's world
   \<Rightarrow> (bool \<times> error) outcome \<times> 's world" where
  "CheckImage E c img w =
     (case GetImageDigest E c img w of
        (Exits e, w') \<Rightarrow> (Exits e, w')
      | (Panics p, w') \<Rightarrow> (Panics p, w')
      | (Returns (digest, err), w') \<Rightarrow>
          if err \<noteq> None then (Returns (False, Some ''Unable to obtain image digest''), w')
          else getStatus E c digest img w')"

definition GetScanReport ::
  "'s engine \<Rightarrow> AnchoreClient \<Rightarrow> string \<Rightarrow> 's world
   \<Rightarrow> (ScanReport option \<times> error) outcome \<times> 's world" where
  "GetScanReport E c img w =
     (case GetImageDigest E c img w of
        (Exits e, w') \<Rightarrow> (Exits e, w')
      | (Panics p, w') \<Rightarrow> (Panics p, w')
      | (Returns (digest, err), w') \<Rightarrow>
          if err \<noteq> None then (Returns (None, Some ''Unable to obtain image digest''), w')
          else getReport E c digest img w')"

subsection \<open>The admission response helper\<close>

text \<open>
  \<^verbatim>\<open>toAdmissionResponse\<close> of the admission server. Of the Kubernetes types
  \<^verbatim>\<open>v1beta1.AdmissionResponse\<close> and \<^verbatim>\<open>metav1.Status\<close> the records keep the
  fields the helper sets; every other field is left at its zero value by the composite
  literal. Calling \<^verbatim>\<open>Error()\<close> on a nil error panics.
\<close>

record metav1_Status =
  Message :: string

record AdmissionResponse =
  UID :: string
  Allowed :: bool
  Result :: "metav1_Status option"

definition toAdmissionResponse :: "string \<Rightarrow> error \<Rightarrow> AdmissionResponse outcome" where
  "toAdmissionResponse uid err =
     (case err of
        None \<Rightarrow> Panics ''nil pointer dereference''
      | Some m \<Rightarrow> Returns \<lparr>UID = uid, Allowed = False, Result = Some \<lparr>Message = m\<rparr>\<rparr>)"

subsection \<open>The admission evaluator\<close>

text \<open>
  Modelled from the spec: the admission evaluator (package \<^verbatim>\<open>opaimagescanner\<close>) is
  not among the sources; only the field that holds it is. Following the spec's
  aggregation policy, it invokes \<open>CheckImage\<close> for each image reference in declaration
  order, admits the pod iff all of its images pass, and surfaces the first failing
  image's reason as the deny reason; any error from the client is a deny with the
  error's message as the reason. It stops at the first image that does not pass.
\<close>

record AdmissionDecision =
  decisionAllowed :: bool
  decisionReason :: "string option"

fun evaluatePod ::
  "'s engine \<Rightarrow> AnchoreClient \<Rightarrow> string list \<Rightarrow> 's world
   \<Rightarrow> AdmissionDecision outcome \<times> 's world" where
  "evaluatePod E c [] w = (Returns \<lparr>decisionAllowed = True, decisionReason = None\<rparr>, w)"
| "evaluatePod E c (img # imgs) w =
     (case CheckImage E c img w of
        (Exits e, w') \<Rightarrow> (Exits e, w')
      | (Panics p, w') \<Rightarrow> (Panics p, w')
      | (Returns (ok, err), w') \<Rightarrow>
          if ok \<and> err = None then evaluatePod E c imgs w'
          else (Returns \<lparr>decisionAllowed = False, decisionReason = err\<rparr>, w'))"

subsection \<open>Notions used to state the properties\<close>

text \<open>
  Equality of two strings up to the case of ASCII letters, written without reference
  to \<open>ToLower\<close>: the strings have the same length and, position by position, hold the
  same byte or an upper-case letter and its lower-case form.
\<close>

definition isUpper :: "char \<Rightarrow> bool" where
  "isUpper a = (65 \<le> (of_char a :: nat) \<and> (of_char a :: nat) \<le> 90)"

definition sameLetter :: "char \<Rightarrow> char \<Rightarrow> bool" where
  "sameLetter a b =
     (a = b \<or> (isUpper a \<and> (of_char b :: nat) = of_char a + 32)
            \<or> (isUpper b \<and> (of_char a :: nat) = of_char b + 32))"

definition equalIgnoringCase :: "string \<Rightarrow> string \<Rightarrow> bool" where
  "equalIgnoringCase s t = list_all2 sameLetter s t"

text \<open>
  A digest-resolution attempt fails when it returns with an error. \<open>attemptWorld k\<close> is
  the world in which attempt number \<open>k\<close> (counted from 0) of the retry loop starts when
  all attempts before it have failed: each is followed by a sleep of one second.
\<close>

definition failed :: "(string \<times> error) outcome \<Rightarrow> bool" where
  "failed r = (case r of Returns (d, Some e) \<Rightarrow> True | _ \<Rightarrow> False)"

fun attemptWorld :: "'s engine \<Rightarrow> AnchoreClient \<Rightarrow> string \<Rightarrow> 's world \<Rightarrow> nat \<Rightarrow> 's world" where
  "attemptWorld E c img w 0 = w"
| "attemptWorld E c img w (Suc k) =
     sleepSecond (snd (getDigest E c img (attemptWorld E c img w k)))"

text \<open>The request of a digest-resolution attempt, and of a report fetch.\<close>

definition digestRequest :: "AnchoreClient \<Rightarrow> string \<Rightarrow> request" where
  "digestRequest c img =
     buildRequest c ''/images'' [(''tag'', img), (''history'', ''true'')] ''GET''"

definition reportRequest :: "AnchoreClient \<Rightarrow> string \<Rightarrow> string \<Rightarrow> request" where
  "reportRequest c digest tag = buildRequest c (reportPath digest tag) [] ''GET''"

definition registerRequest :: "AnchoreClient \<Rightarrow> string \<Rightarrow> request" where
  "registerRequest c img = buildRequest c ''/images'' [(''tag'', img)] ''POST''"

text \<open>
  The events of \<open>k\<close> failed attempts, each followed by a sleep of one second, and of
  one more attempt.
\<close>

fun retryEvents :: "request \<Rightarrow> nat \<Rightarrow> event list" where
  "retryEvents r 0 = [EvRequest r]"
| "retryEvents r (Suc k) = EvRequest r # EvSleep 1 # retryEvents r k"

fun isRequest :: "event \<Rightarrow> bool" where
  "isRequest (EvRequest r) = True"
| "isRequest (EvSleep n) = False"

definition requestsSince :: "'s world \<Rightarrow> 's world \<Rightarrow> nat" where
  "requestsSince w w' = length (filter isRequest (drop (length (events w)) (events w')))"

text \<open>
  The evaluator checks the images of a pod one after the other, each in the world the
  checks before it have left. \<open>checkWorld k\<close> is the world in which the check of image
  number \<open>k\<close> (counted from 0) starts when every image before it has been checked, and
  \<open>checkAt k\<close> is that check. \<open>decide\<close> is what the evaluator answers on a check that
  does not pass: a deny with the check's error as the reason, or, when the check does
  not return, its panic or exit.
\<close>

fun checkWorld :: "'s engine \<Rightarrow> AnchoreClient \<Rightarrow> string list \<Rightarrow> 's world \<Rightarrow> nat \<Rightarrow> 's world" where
  "checkWorld E c imgs w 0 = w"
| "checkWorld E c imgs w (Suc k) =
     snd (CheckImage E c (imgs ! k) (checkWorld E c imgs w k))"

definition checkAt ::
  "'s engine \<Rightarrow> AnchoreClient \<Rightarrow> string list \<Rightarrow> 's world \<Rightarrow> nat
   \<Rightarrow> (bool \<times> error) outcome \<times> 's world" where
  "checkAt E c imgs w k = CheckImage E c (imgs ! k) (checkWorld E c imgs w k)"

definition decide :: "(bool \<times> error) outcome \<Rightarrow> AdmissionDecision outcome" where
  "decide r =
     (case r of
        Returns (ok, err) \<Rightarrow> Returns \<lparr>decisionAllowed = False, decisionReason = err\<rparr>
      | Panics p \<Rightarrow> Panics p
      | Exits e \<Rightarrow> Exits e)"

subsection \<open>A concrete engine to run the client on\<close>

text \<open>
  A remote engine that counts the requests it has answered and answers request number
  \<open>n\<close> by \<open>f n\<close>; \<^verbatim>\<open>http.NewRequest\<close> accepts every URL; the two decoders know the
  bodies listed below, each with the value \<^verbatim>\<open>json.Unmarshal\<close> gives for it, and
  reject every other body.
\<close>

definition counterRemote :: "(nat \<Rightarrow> request \<Rightarrow> http_result) \<Rightarrow> request \<Rightarrow> nat \<Rightarrow> http_result \<times> nat" where
  "counterRemote f req n = (f n req, Suc n)"

definition tableDecode :: "(string \<times> 'a) list \<Rightarrow> string \<Rightarrow> string + 'a" where
  "tableDecode table body =
     (case map_of table body of
        Some v \<Rightarrow> Inr v
      | None \<Rightarrow> Inl ''invalid character'')"

definition imagesAA :: string where
  \<open>imagesAA = ''[{"imageDigest":"sha256:aa"}]''\<close>

definition imagesBB :: string where
  \<open>imagesBB = ''[{"imageDigest":"sha256:bb"}]''\<close>

definition imagesCC :: string where
  \<open>imagesCC = ''[{"imageDigest":"sha256:cc"}]''\<close>

definition imagesDD :: string where
  \<open>imagesDD = ''[{"imageDigest":"sha256:dd"}]''\<close>

definition reportAA :: string where
  \<open>reportAA = ''[{"sha256:aa":{"app:1":[{"status":"PASS"}]}}]''\<close>

definition reportBB :: string where
  \<open>reportBB = ''[{"sha256:bb":{"db:2":[{"status":"fail"}]}}]''\<close>

definition reportCC :: string where
  \<open>reportCC = ''[{"sha256:cc":{"web:3":[{"status":"pass"}]}}]''\<close>

definition reportDD :: string where
  \<open>reportDD = ''[{"sha256:dd":{}}]''\<close>

definition reportTwice :: string where
  \<open>reportTwice = ''[{"sha256:aa":{"app:1":[{"status":"PASS"}]}},{"sha256:aa":{}}]''\<close>

definition imageBodies :: "(string \<times> Image list) list" where
  "imageBodies =
     [(''[]'', []),
      (imagesAA, [\<lparr>ImageDigest = ''sha256:aa''\<rparr>]),
      (imagesBB, [\<lparr>ImageDigest = ''sha256:bb''\<rparr>]),
      (imagesCC, [\<lparr>ImageDigest = ''sha256:cc''\<rparr>]),
      (imagesDD, [\<lparr>ImageDigest = ''sha256:dd''\<rparr>])]"

definition reportBodies :: "(string \<times> ScanReports) list" where
  "reportBodies =
     [(''[]'', []),
      (reportAA, [[(''sha256:aa'', [(''app:1'', [\<lparr>Status = ''PASS''\<rparr>])])]]),
      (reportBB, [[(''sha256:bb'', [(''db:2'', [\<lparr>Status = ''fail''\<rparr>])])]]),
      (reportCC, [[(''sha256:cc'', [(''web:3'', [\<lparr>Status = ''pass''\<rparr>])])]]),
      (reportDD, [[(''sha256:dd'', [])]]),
      (reportTwice,
         [[(''sha256:aa'', [(''app:1'', [\<lparr>Status = ''PASS''\<rparr>])])],
          [(''sha256:aa'', [])]])]"

definition demoClient :: AnchoreClient where
  "demoClient = \<lparr>baseUrl = ''http://anchore/v1'', secureToken = ''secret''\<rparr>"

definition demoEngine :: "(nat \<Rightarrow> request \<Rightarrow> http_result) \<Rightarrow> nat engine" where
  "demoEngine f =
     \<lparr>send = counterRemote f, newRequestErr = (\<lambda>method url. None),
      unmarshalReports = tableDecode reportBodies,
      unmarshalImages = tableDecode imageBodies\<rparr>"

text \<open>
  A registry that answers by the request alone. It knows five images: \<open>app:1\<close> and
  \<open>web:3\<close> pass their scan, \<open>db:2\<close> fails it, the report of \<open>job:4\<close> has an entry
  for its digest without any tag, and the image list of \<open>void:5\<close> is empty. Every
  other image is unknown (status 404).
\<close>

definition registryImages :: "(string \<times> string) list" where
  "registryImages =
     [(''app:1'', imagesAA), (''db:2'', imagesBB), (''web:3'', imagesCC),
      (''job:4'', imagesDD), (''void:5'', ''[]'')]"

definition registryReports :: "(string \<times> string) list" where
  "registryReports =
     [(''http://anchore/v1/images/sha256:aa/check?tag=app:1&history=false&detail=true'',
         reportAA),
      (''http://anchore/v1/images/sha256:bb/check?tag=db:2&history=false&detail=true'',
         reportBB),
      (''http://anchore/v1/images/sha256:cc/check?tag=web:3&history=false&detail=true'',
         reportCC),
      (''http://anchore/v1/images/sha256:dd/check?tag=job:4&history=false&detail=true'',
         reportDD)]"

definition registry :: "request \<Rightarrow> http_result" where
  "registry req =
     (if req_method req = ''POST'' then Responds 200 ''{}''
      else if req_url req = ''http://anchore/v1/images'' then
        (case map_of (req_params req) ''tag'' of
           None \<Rightarrow> Responds 400 []
         | Some t \<Rightarrow>
             (case map_of registryImages t of
                None \<Rightarrow> Responds 404 []
              | Some body \<Rightarrow> Responds 200 body))
      else
        (case map_of registryReports (req_url req) of
           None \<Rightarrow> Responds 404 []
         | Some body \<Rightarrow> Responds 200 body))"

definition registryEngine :: "nat engine" where
  "registryEngine = demoEngine (\<lambda>n. registry)"

text \<open>An engine that answers every request with status 200 and the same body.\<close>

definition constEngine :: "string \<Rightarrow> nat engine" where
  "constEngine body = demoEngine (\<lambda>n req. Responds 200 body)"

text \<open>The same registry, except that it answers its second request with status 500.\<close>

definition flakyRegistry :: "nat \<Rightarrow> request \<Rightarrow> http_result" where
  "flakyRegistry n req = (if n = 1 then Responds 500 [] else registry req)"

definition flakyEngine :: "nat engine" where
  "flakyEngine = demoEngine flakyRegistry"

text \<open>
  An engine that accepts the first request, the registration, and answers every later
  request with status 500.
\<close>

definition downEngine :: "nat engine" where
  "downEngine = demoEngine (\<lambda>n req. if n = 0 then Responds 200 ''{}'' else Responds 500 [])"

definition startWorld :: "nat world" where
  "startWorld = \<lparr>remote = 0, events = []\<rparr>"

section \<open>Auxiliary facts\<close>

subsection \<open>Case conversion\<close>

lemma of_char_toLowerChar:
  "(of_char (toLowerChar a) :: nat) = (if isUpper a then of_char a + 32 else of_char a)"
  by (simp add: toLowerChar_def isUpper_def Let_def)

lemma toLowerChar_eq_iff: "toLowerChar a = toLowerChar b \<longleftrightarrow> sameLetter a b"
proof -
  have "toLowerChar a = toLowerChar b \<longleftrightarrow>
        (of_char (toLowerChar a) :: nat) = of_char (toLowerChar b)"
    by simp
  also have "\<dots> \<longleftrightarrow> sameLetter a b"
    unfolding of_char_toLowerChar sameLetter_def
    by (auto simp: isUpper_def)
  finally show ?thesis .
qed

lemma ToLower_eq_iff: "ToLower s = ToLower t \<longleftrightarrow> equalIgnoringCase s t"
proof (induction s arbitrary: t)
  case Nil
  show ?case by (simp add: ToLower_def equalIgnoringCase_def)
next
  case (Cons a s)
  show ?case
  proof (cases t)
    case Nil
    then show ?thesis by (simp add: ToLower_def equalIgnoringCase_def)
  next
    case (Cons b u)
    have "ToLower s = ToLower u \<longleftrightarrow> equalIgnoringCase s u"
      by (rule Cons.IH)
    then show ?thesis
      using Cons by (simp add: ToLower_def equalIgnoringCase_def toLowerChar_eq_iff)
  qed
qed

lemma ToLower_pass: "ToLower ''pass'' = ''pass''"
  by code_simp

lemma ToLower_is_pass: "ToLower s = ''pass'' \<longleftrightarrow> equalIgnoringCase s ''pass''"
  using ToLower_eq_iff [of s "''pass''"] by (simp add: ToLower_pass)

lemma ToLower_examples:
  "ToLower ''PASS'' = ''pass''" "ToLower ''fail'' = ''fail''"
  by code_simp+

lemma equalIgnoringCase_examples:
  "equalIgnoringCase ''PASS'' ''pass''" "\<not> equalIgnoringCase ''fail'' ''pass''"
  by (simp_all add: equalIgnoringCase_def sameLetter_def isUpper_def)

subsection \<open>One request\<close>

lemma anchoreRequest_exits:
  "newRequestErr E method (baseUrl c @ path) = Some e \<Longrightarrow>
   anchoreRequest E c path params method w = (Exits e, w)"
  by (simp add: anchoreRequest_def)

lemma anchoreRequest_sends:
  assumes "newRequestErr E method (baseUrl c @ path) = None"
    and "send E (buildRequest c path params method) (remote w) = (resp, s')"
  shows "anchoreRequest E c path params method w =
     ((case resp of
         DoFails e \<Rightarrow> Returns ([], Some (''failed to complete request to Anchore: '' @ e))
       | ReadFails st e \<Rightarrow> Returns ([], Some (''failed to complete request to Anchore: '' @ e))
       | Responds st bodyText \<Rightarrow>
           if st \<noteq> 200 then Returns ([], Some (''response from Anchore: '' @ string_of_int st))
           else Returns (bodyText, None)),
      w\<lparr>remote := s', events := events w @ [EvRequest (buildRequest c path params method)]\<rparr>)"
  using assms by (simp add: anchoreRequest_def split: http_result.splits)

lemma anchoreRequest_events:
  "events (snd (anchoreRequest E c path params method w)) =
     events w @ (if newRequestErr E method (baseUrl c @ path) = None
                 then [EvRequest (buildRequest c path params method)] else [])"
  by (simp add: anchoreRequest_def Let_def split: option.splits prod.splits http_result.splits)

lemma anchoreRequest_no_panic: "fst (anchoreRequest E c path params method w) \<noteq> Panics p"
  by (simp add: anchoreRequest_def Let_def split: option.splits prod.splits http_result.splits)

lemma string_of_int_404: "string_of_int 404 = ''404''"
  by code_simp

lemma string_of_int_500: "string_of_int 500 = ''500''"
  by code_simp

subsection \<open>The report fetch, case by case\<close>

lemma getReport_cases:
  assumes "anchoreRequest E c (reportPath digest tag) [] ''GET'' w = (Returns (body, None), w')"
    and "unmarshalReports E body = Inr result"
  shows "getReport E c digest tag w =
     (if length result = 0 then (Returns (None, Some ''Scan report list is empty''), w')
      else if length result > 1
      then (Returns (None, Some ''Unexpected scan report: multiple entries''), w')
      else (case map_of (hd result) digest of
              None \<Rightarrow> (Returns (None, Some ''Digest in the scan report does not match''), w')
            | Some tags \<Rightarrow>
                (case tags of
                   [] \<Rightarrow> (Panics ''index out of range [0] with length 0'', w')
                 | (fullTag, reports) # _ \<Rightarrow>
                     (case reports of
                        [] \<Rightarrow> (Panics ''index out of range [0] with length 0'', w')
                      | r # _ \<Rightarrow> (Returns (Some r, None), w')))))"
  using assms by (simp add: getReport_def split: option.splits list.splits)

subsection \<open>The retry loop\<close>

lemma getDigest_exits:
  "newRequestErr E ''GET'' (baseUrl c @ ''/images'') = Some e \<Longrightarrow>
   getDigest E c img w = (Exits e, w)"
  by (simp add: getDigest_def anchoreRequest_exits)

lemma getDigest_events:
  "newRequestErr E ''GET'' (baseUrl c @ ''/images'') = None \<Longrightarrow>
   events (snd (getDigest E c img w)) = events w @ [EvRequest (digestRequest c img)]"
  using anchoreRequest_events [of E c "''/images''" "[(''tag'', img), (''history'', ''true'')]"
      "''GET''" w]
  by (auto simp: getDigest_def digestRequest_def
      split: prod.splits outcome.splits sum.splits list.splits)

lemma getDigestLoop_stop:
  "\<not> failed (fst (getDigest E c img w)) \<or> 5 \<le> count \<Longrightarrow>
   getDigestLoop E c img count w = getDigest E c img w"
  by (subst getDigestLoop.simps)
    (auto simp: failed_def split: prod.splits outcome.splits option.splits)

lemma getDigestLoop_retry:
  "failed (fst (getDigest E c img w)) \<Longrightarrow> count < 5 \<Longrightarrow>
   getDigestLoop E c img count w =
     getDigestLoop E c img (Suc count) (sleepSecond (snd (getDigest E c img w)))"
  by (subst getDigestLoop.simps)
    (auto simp: failed_def split: prod.splits outcome.splits option.splits)

lemma getDigestLoop_skip:
  "(\<forall>j<k. failed (fst (getDigest E c img (attemptWorld E c img w j)))) \<Longrightarrow>
   count + k \<le> 5 \<Longrightarrow>
   getDigestLoop E c img count w =
     getDigestLoop E c img (count + k) (attemptWorld E c img w k)"
proof (induction k)
  case 0
  show ?case by simp
next
  case (Suc k)
  have "getDigestLoop E c img count w =
          getDigestLoop E c img (count + k) (attemptWorld E c img w k)"
    using Suc by simp
  also have "\<dots> = getDigestLoop E c img (Suc (count + k))
                     (sleepSecond (snd (getDigest E c img (attemptWorld E c img w k))))"
    using Suc.prems by (intro getDigestLoop_retry) auto
  finally show ?case by simp
qed

lemma getDigestLoop_result:
  "\<exists>k<6. getDigestLoop E c img 0 w = getDigest E c img (attemptWorld E c img w k)
        \<and> (\<forall>j<k. failed (fst (getDigest E c img (attemptWorld E c img w j))))
        \<and> (k < 5 \<longrightarrow> \<not> failed (fst (getDigest E c img (attemptWorld E c img w k))))"
proof -
  let ?P = "\<lambda>j. failed (fst (getDigest E c img (attemptWorld E c img w j)))"
  show ?thesis
  proof (cases "\<exists>j<5. \<not> ?P j")
    case True
    define k where "k = (LEAST j. \<not> ?P j)"
    from True obtain j where j: "j < 5" "\<not> ?P j" by blast
    have nk: "\<not> ?P k" unfolding k_def using j(2) by (rule LeastI)
    have kj: "k \<le> j" unfolding k_def using j(2) by (rule Least_le)
    have before: "\<forall>i<k. ?P i"
      unfolding k_def using not_less_Least by blast
    have "getDigestLoop E c img 0 w = getDigestLoop E c img (0 + k) (attemptWorld E c img w k)"
      using before kj j(1) by (intro getDigestLoop_skip) auto
    also have "\<dots> = getDigest E c img (attemptWorld E c img w k)"
      using nk by (simp add: getDigestLoop_stop)
    finally show ?thesis
      using nk before kj j(1) by (intro exI [of _ k]) auto
  next
    case False
    then have all: "\<forall>j<5. ?P j" by blast
    have "getDigestLoop E c img 0 w = getDigestLoop E c img (0 + 5) (attemptWorld E c img w 5)"
      using all by (intro getDigestLoop_skip) auto
    also have "\<dots> = getDigest E c img (attemptWorld E c img w 5)"
      by (simp add: getDigestLoop_stop)
    finally show ?thesis
      using all by (intro exI [of _ 5]) auto
  qed
qed

lemma retryEvents_snoc:
  "retryEvents r (Suc k) = retryEvents r k @ [EvSleep 1, EvRequest r]"
  by (induction k) simp_all

lemma attempt_events:
  assumes "newRequestErr E ''GET'' (baseUrl c @ ''/images'') = None"
  shows "events (snd (getDigest E c img (attemptWorld E c img w k)))
           = events w @ retryEvents (digestRequest c img) k"
proof (induction k)
  case 0
  show ?case by (simp add: getDigest_events [OF assms])
next
  case (Suc k)
  show ?case
    using Suc by (simp add: getDigest_events [OF assms] sleepSecond_def retryEvents_snoc
        del: retryEvents.simps)
qed

lemma attempt_events_exits:
  assumes "newRequestErr E ''GET'' (baseUrl c @ ''/images'') = Some e"
  shows "events (snd (getDigest E c img (attemptWorld E c img w k)))
           = events w @ replicate k (EvSleep 1)"
proof (induction k)
  case 0
  show ?case by (simp add: getDigest_exits [OF assms])
next
  case (Suc k)
  show ?case
    using Suc by (simp add: getDigest_exits [OF assms] sleepSecond_def replicate_append_same)
qed

lemma requests_retryEvents: "length (filter isRequest (retryEvents r k)) = Suc k"
  by (induction k) simp_all

lemma requests_sleeps: "filter isRequest (replicate k (EvSleep n)) = []"
  by (induction k) simp_all

lemma attempt_requests:
  "requestsSince w (snd (getDigest E c img (attemptWorld E c img w k))) \<le> Suc k"
proof (cases "newRequestErr E ''GET'' (baseUrl c @ ''/images'')")
  case None
  then show ?thesis
    by (simp add: requestsSince_def attempt_events requests_retryEvents)
next
  case (Some e)
  then show ?thesis
    by (simp add: requestsSince_def attempt_events_exits requests_sleeps)
qed

lemma requestsSince_same: "requestsSince w w = 0"
  by (simp add: requestsSince_def)

lemma GetImageDigest_not_registered:
  assumes "\<forall>w0. addImage E c img w \<noteq> (Returns None, w0)"
  shows "snd (GetImageDigest E c img w) = snd (addImage E c img w)"
proof (cases "addImage E c img w")
  case (Pair r w1)
  show ?thesis
  proof (cases r)
    case (Returns err)
    then have "err \<noteq> None" using assms Pair by auto
    then show ?thesis using Pair Returns by (simp add: GetImageDigest_def)
  next
    case (Panics p)
    then show ?thesis using Pair by (simp add: GetImageDigest_def)
  next
    case (Exits e)
    then show ?thesis using Pair by (simp add: GetImageDigest_def)
  qed
qed

lemma GetImageDigest_registered:
  "addImage E c img w = (Returns None, w0) \<Longrightarrow>
   GetImageDigest E c img w = getDigestLoop E c img 0 w0"
  by (simp add: GetImageDigest_def)

lemma getDigestLoop_requests:
  "requestsSince w0 (snd (getDigestLoop E c img 0 w0)) \<le> 6"
proof -
  obtain k where k: "k < 6"
    "getDigestLoop E c img 0 w0 = getDigest E c img (attemptWorld E c img w0 k)"
    using getDigestLoop_result [of E c img w0] by blast
  have "requestsSince w0 (snd (getDigest E c img (attemptWorld E c img w0 k))) \<le> Suc k"
    by (rule attempt_requests)
  with k show ?thesis by simp
qed

lemma GetImageDigest_requests:
  "requestsSince (snd (addImage E c img w)) (snd (GetImageDigest E c img w)) \<le> 6"
proof (cases "\<exists>w1. addImage E c img w = (Returns None, w1)")
  case True
  then obtain w1 where a: "addImage E c img w = (Returns None, w1)" ..
  show ?thesis
    unfolding GetImageDigest_registered [OF a] a snd_conv
    by (rule getDigestLoop_requests)
next
  case False
  then have "\<forall>w0. addImage E c img w \<noteq> (Returns None, w0)" by simp
  then show ?thesis
    by (simp add: GetImageDigest_not_registered requestsSince_same)
qed

subsection \<open>The evaluator, image by image\<close>

lemma checkWorld_Cons:
  "checkWorld E c (i # imgs) w (Suc k) = checkWorld E c imgs (snd (CheckImage E c i w)) k"
  by (induction k) simp_all

lemma checkAt_Cons_0: "checkAt E c (i # imgs) w 0 = CheckImage E c i w"
  by (simp add: checkAt_def)

lemma checkAt_Cons_Suc:
  "checkAt E c (i # imgs) w (Suc k) = checkAt E c imgs (snd (CheckImage E c i w)) k"
  unfolding checkAt_def checkWorld_Cons by simp

lemma evaluatePod_pass_step:
  "fst (CheckImage E c i w) = Returns (True, None) \<Longrightarrow>
   evaluatePod E c (i # imgs) w = evaluatePod E c imgs (snd (CheckImage E c i w))"
  by (cases "CheckImage E c i w") simp

lemma evaluatePod_stop_step:
  "fst (CheckImage E c i w) \<noteq> Returns (True, None) \<Longrightarrow>
   fst (evaluatePod E c (i # imgs) w) = decide (fst (CheckImage E c i w))"
  by (cases "CheckImage E c i w")
    (auto simp: decide_def split: outcome.splits)

lemma evaluatePod_all_pass:
  "(\<forall>k<length imgs. fst (checkAt E c imgs w k) = Returns (True, None)) \<Longrightarrow>
   fst (evaluatePod E c imgs w) = Returns \<lparr>decisionAllowed = True, decisionReason = None\<rparr>"
proof (induction imgs arbitrary: w)
  case Nil
  show ?case by simp
next
  case (Cons i imgs)
  have 0: "fst (CheckImage E c i w) = Returns (True, None)"
    using Cons.prems [rule_format, of 0] by (simp add: checkAt_Cons_0)
  have rest: "\<forall>k<length imgs.
      fst (checkAt E c imgs (snd (CheckImage E c i w)) k) = Returns (True, None)"
  proof (intro allI impI)
    fix k assume "k < length imgs"
    then show "fst (checkAt E c imgs (snd (CheckImage E c i w)) k) = Returns (True, None)"
      using Cons.prems [rule_format, of "Suc k"] by (simp add: checkAt_Cons_Suc)
  qed
  show ?case
    unfolding evaluatePod_pass_step [OF 0] by (rule Cons.IH [OF rest])
qed

lemma evaluatePod_first_stop:
  "k < length imgs \<Longrightarrow>
   (\<forall>j<k. fst (checkAt E c imgs w j) = Returns (True, None)) \<Longrightarrow>
   fst (checkAt E c imgs w k) \<noteq> Returns (True, None) \<Longrightarrow>
   fst (evaluatePod E c imgs w) = decide (fst (checkAt E c imgs w k))"
proof (induction imgs arbitrary: w k)
  case Nil
  then show ?case by simp
next
  case (Cons i imgs)
  show ?case
  proof (cases k)
    case 0
    then show ?thesis
      using Cons.prems(3)
      by (simp add: checkAt_Cons_0 evaluatePod_stop_step del: evaluatePod.simps)
  next
    case (Suc k')
    have 0: "fst (CheckImage E c i w) = Returns (True, None)"
      using Cons.prems(2) [rule_format, of 0] Suc by (simp add: checkAt_Cons_0)
    let ?w = "snd (CheckImage E c i w)"
    have a: "k' < length imgs" using Cons.prems(1) Suc by simp
    have b: "\<forall>j<k'. fst (checkAt E c imgs ?w j) = Returns (True, None)"
    proof (intro allI impI)
      fix j assume "j < k'"
      then show "fst (checkAt E c imgs ?w j) = Returns (True, None)"
        using Cons.prems(2) [rule_format, of "Suc j"] Suc by (simp add: checkAt_Cons_Suc)
    qed
    have d: "fst (checkAt E c imgs ?w k') \<noteq> Returns (True, None)"
      using Cons.prems(3) Suc by (simp add: checkAt_Cons_Suc)
    show ?thesis
      unfolding evaluatePod_pass_step [OF 0] Suc checkAt_Cons_Suc
      by (rule Cons.IH [OF a b d])
  qed
qed

lemma decide_not_allowed: "decide r = Returns d \<Longrightarrow> \<not> decisionAllowed d"
  by (auto simp: decide_def split: outcome.splits)

subsection \<open>Running the client on the concrete engines\<close>

lemmas client_defs = anchoreRequest_def buildRequest_def reportPath_def getReport_def
  getStatus_def getDigest_def addImage_def

lemmas demo_defs = demoEngine_def counterRemote_def tableDecode_def imageBodies_def
  reportBodies_def demoClient_def registry_def registryImages_def registryReports_def
  startWorld_def registryEngine_def constEngine_def flakyEngine_def flakyRegistry_def
  imagesAA_def imagesBB_def imagesCC_def imagesDD_def
  reportAA_def reportBB_def reportCC_def reportDD_def reportTwice_def

lemmas run_defs = client_defs demo_defs GetImageDigest_def CheckImage_def
  getDigestLoop.simps sleepSecond_def string_of_int_404 errNotFound_def

lemma constEngine_request:
  "anchoreRequest (constEngine body) demoClient path params method startWorld
     = (Returns (body, None),
        \<lparr>remote = 1, events = [EvRequest (buildRequest demoClient path params method)]\<rparr>)"
  by (simp add: anchoreRequest_def constEngine_def demoEngine_def counterRemote_def
      startWorld_def)

lemma pair_fst_snd: "fst p = a \<Longrightarrow> p = (a, snd p)"
  by (cases p) simp

lemma registry_ghost_digest:
  "fst (GetImageDigest registryEngine demoClient ''ghost:0'' startWorld)
     = Returns ([], Some errNotFound)"
  by (simp add: run_defs)

lemma registry_db_digest:
  "fst (GetImageDigest registryEngine demoClient ''db:2'' w) = Returns (''sha256:bb'', None)"
  by (simp add: run_defs)

lemma registry_db_status:
  "fst (getStatus registryEngine demoClient ''sha256:bb'' ''db:2'' w)
     = Returns (False, Some ''Scan result is FAILED'')"
  by (simp add: run_defs ToLower_examples)

lemma registry_app_check:
  "fst (CheckImage registryEngine demoClient ''app:1'' w) = Returns (True, None)"
  by (simp add: run_defs ToLower_examples)

lemma registry_db_check:
  "fst (CheckImage registryEngine demoClient ''db:2'' w)
     = Returns (False, Some ''Scan result is FAILED'')"
  by (simp add: run_defs ToLower_examples)

lemma registry_web_check:
  "fst (CheckImage registryEngine demoClient ''web:3'' w) = Returns (True, None)"
  by (simp add: run_defs ToLower_pass)

lemma registry_job_check:
  "fst (CheckImage registryEngine demoClient ''job:4'' w)
     = Panics ''index out of range [0] with length 0''"
  by (simp add: run_defs)

lemma registry_checkAt:
  "fst (checkAt registryEngine demoClient [''app:1'', ''db:2'', ''web:3''] w 0)
     = Returns (True, None)"
  "fst (checkAt registryEngine demoClient [''app:1'', ''db:2'', ''web:3''] w 1)
     = Returns (False, Some ''Scan result is FAILED'')"
  "fst (checkAt registryEngine demoClient [''app:1'', ''web:3''] w 0) = Returns (True, None)"
  "fst (checkAt registryEngine demoClient [''app:1'', ''web:3''] w 1) = Returns (True, None)"
  "fst (checkAt registryEngine demoClient [''app:1'', ''job:4'', ''web:3''] w 0)
     = Returns (True, None)"
  "fst (checkAt registryEngine demoClient [''app:1'', ''job:4'', ''web:3''] w 1)
     = Panics ''index out of range [0] with length 0''"
  by (simp_all add: checkAt_def registry_app_check registry_db_check registry_web_check
      registry_job_check)

lemma registry_addImage:
  "addImage registryEngine demoClient img startWorld =
     (Returns None, \<lparr>remote = 1, events = [EvRequest (registerRequest demoClient img)]\<rparr>)"
  by (simp add: run_defs registerRequest_def)

lemma flaky_addImage:
  "addImage flakyEngine demoClient img startWorld =
     (Returns None, \<lparr>remote = 1, events = [EvRequest (registerRequest demoClient img)]\<rparr>)"
  by (simp add: run_defs registerRequest_def)

lemma down_addImage:
  "addImage downEngine demoClient img startWorld =
     (Returns None, \<lparr>remote = 1, events = [EvRequest (registerRequest demoClient img)]\<rparr>)"
  by (simp add: run_defs registerRequest_def downEngine_def)

lemma flaky_GetImageDigest:
  "GetImageDigest flakyEngine demoClient ''app:1'' startWorld =
     (Returns (''sha256:aa'', None),
      \<lparr>remote = 3,
       events = [EvRequest (registerRequest demoClient ''app:1''),
                 EvRequest (digestRequest demoClient ''app:1''), EvSleep 1,
                 EvRequest (digestRequest demoClient ''app:1'')]\<rparr>)"
  by (simp add: run_defs Let_def registerRequest_def digestRequest_def)

lemma flaky_first_attempt:
  "getDigest flakyEngine demoClient ''app:1''
     \<lparr>remote = 1, events = [EvRequest (registerRequest demoClient ''app:1'')]\<rparr> =
     (Returns ([], Some ''response from Anchore: 500''),
      \<lparr>remote = 2,
       events = [EvRequest (registerRequest demoClient ''app:1''),
                 EvRequest (digestRequest demoClient ''app:1'')]\<rparr>)"
  by (simp add: run_defs Let_def registerRequest_def digestRequest_def string_of_int_500)

lemma down_GetImageDigest:
  "GetImageDigest downEngine demoClient ''app:1'' startWorld =
     (Returns ([], Some ''response from Anchore: 500''),
      \<lparr>remote = 7,
       events = EvRequest (registerRequest demoClient ''app:1'')
                # retryEvents (digestRequest demoClient ''app:1'') 5\<rparr>)"
  by (simp add: run_defs Let_def registerRequest_def digestRequest_def string_of_int_500
      downEngine_def numeral_eq_Suc)

subsection \<open>What the verdict step can return\<close>

lemma getStatus_results:
  "fst (getStatus E c digest tag w) = Returns (b, err) \<Longrightarrow>
     (b \<and> err = None) \<or> (\<not> b \<and> err \<noteq> None)"
  by (auto simp: getStatus_def split: prod.splits outcome.splits option.splits if_splits)

lemma getStatus_True:
  "getStatus E c digest tag w = (Returns (True, err), w') \<Longrightarrow>
     err = None \<and> (\<exists>r. getReport E c digest tag w = (Returns (Some r, None), w')
                     \<and> ToLower (Status r) = ''pass'')"
  by (auto simp: getStatus_def split: prod.splits outcome.splits option.splits if_splits)

section \<open>The verdict\<close>

text \<open>
  C1: \<open>getStatus\<close> returns \<open>(true, nil)\<close> if and only if the report fetch returned a
  report whose status field equals \<open>pass\<close> up to the case of its letters; for a report
  with any other status it returns \<open>(false, err)\<close> where the error reads
  \<open>Scan result is FAILED\<close>.
\<close>

theorem getStatus_verdict:
  "(fst (getStatus E c digest tag w) = Returns (True, None) \<longleftrightarrow>
      (\<exists>r. fst (getReport E c digest tag w) = Returns (Some r, None)
           \<and> equalIgnoringCase (Status r) ''pass''))
   \<and> (fst (getReport E c digest tag w) = Returns (Some r, None)
        \<and> \<not> equalIgnoringCase (Status r) ''pass''
      \<longrightarrow> fst (getStatus E c digest tag w) = Returns (False, Some ''Scan result is FAILED''))"
  by (auto simp: getStatus_def ToLower_is_pass split: prod.splits outcome.splits option.splits)

text \<open>
  On the registry: the report of \<open>app:1\<close> has status \<open>PASS\<close> and the verdict is
  \<open>(true, nil)\<close>; the report of \<open>db:2\<close> has status \<open>fail\<close> and the verdict is the
  generic failure.
\<close>

theorem getStatus_verdict_witness:
  "fst (getReport registryEngine demoClient ''sha256:aa'' ''app:1'' startWorld)
     = Returns (Some \<lparr>Status = ''PASS''\<rparr>, None)
   \<and> equalIgnoringCase ''PASS'' ''pass''
   \<and> fst (getStatus registryEngine demoClient ''sha256:aa'' ''app:1'' startWorld)
       = Returns (True, None)
   \<and> fst (getReport registryEngine demoClient ''sha256:bb'' ''db:2'' startWorld)
       = Returns (Some \<lparr>Status = ''fail''\<rparr>, None)
   \<and> \<not> equalIgnoringCase ''fail'' ''pass''
   \<and> fst (getStatus registryEngine demoClient ''sha256:bb'' ''db:2'' startWorld)
       = Returns (False, Some ''Scan result is FAILED'')"
proof -
  have a: "fst (getReport registryEngine demoClient ''sha256:aa'' ''app:1'' startWorld)
             = Returns (Some \<lparr>Status = ''PASS''\<rparr>, None)"
    by (simp add: run_defs)
  have b: "fst (getReport registryEngine demoClient ''sha256:bb'' ''db:2'' startWorld)
             = Returns (Some \<lparr>Status = ''fail''\<rparr>, None)"
    by (simp add: run_defs)
  show ?thesis
    using a b equalIgnoringCase_examples
      getStatus_verdict [of registryEngine demoClient "''sha256:aa''" "''app:1''" startWorld]
      getStatus_verdict [of registryEngine demoClient "''sha256:bb''" "''db:2''" startWorld
        "\<lparr>Status = ''fail''\<rparr>"]
    by auto
qed

section \<open>Integrity of the report collection\<close>

text \<open>
  C6: when the request succeeded and its body decodes to a report collection,
  \<open>getReport\<close> returns a nil report together with a descriptive error whenever the
  collection has no entry, has more than one entry, or has one entry without the
  queried digest as a key.
\<close>

theorem getReport_integrity_errors:
  assumes "anchoreRequest E c (reportPath digest tag) [] ''GET'' w = (Returns (body, None), w')"
    and "unmarshalReports E body = Inr result"
  shows "(length result = 0 \<longrightarrow>
            getReport E c digest tag w = (Returns (None, Some ''Scan report list is empty''), w'))
       \<and> (length result > 1 \<longrightarrow>
            getReport E c digest tag w =
              (Returns (None, Some ''Unexpected scan report: multiple entries''), w'))
       \<and> (length result = 1 \<and> map_of (hd result) digest = None \<longrightarrow>
            getReport E c digest tag w =
              (Returns (None, Some ''Digest in the scan report does not match''), w'))"
  using getReport_cases [OF assms] by simp

text \<open>
  On engines that answer with an empty collection, with a collection of two entries,
  and with the report of another digest.
\<close>

theorem getReport_integrity_errors_witness:
  "getReport (constEngine ''[]'') demoClient ''sha256:aa'' ''app:1'' startWorld
     = (Returns (None, Some ''Scan report list is empty''),
        \<lparr>remote = 1, events = [EvRequest (reportRequest demoClient ''sha256:aa'' ''app:1'')]\<rparr>)
   \<and> getReport (constEngine reportTwice) demoClient ''sha256:aa'' ''app:1'' startWorld
     = (Returns (None, Some ''Unexpected scan report: multiple entries''),
        \<lparr>remote = 1, events = [EvRequest (reportRequest demoClient ''sha256:aa'' ''app:1'')]\<rparr>)
   \<and> getReport (constEngine reportAA) demoClient ''sha256:bb'' ''db:2'' startWorld
     = (Returns (None, Some ''Digest in the scan report does not match''),
        \<lparr>remote = 1, events = [EvRequest (reportRequest demoClient ''sha256:bb'' ''db:2'')]\<rparr>)"
proof -
  let ?w = "\<lambda>d t. \<lparr>remote = 1::nat, events = [EvRequest (reportRequest demoClient d t)]\<rparr>"
  have req: "anchoreRequest (constEngine body) demoClient (reportPath d t) [] ''GET'' startWorld
               = (Returns (body, None), ?w d t)" for body d t
    by (simp add: constEngine_request reportRequest_def)
  have dec:
    "unmarshalReports (constEngine ''[]'') ''[]'' = Inr []"
    "unmarshalReports (constEngine reportTwice) reportTwice =
       Inr [[(''sha256:aa'', [(''app:1'', [\<lparr>Status = ''PASS''\<rparr>])])], [(''sha256:aa'', [])]]"
    "unmarshalReports (constEngine reportAA) reportAA =
       Inr [[(''sha256:aa'', [(''app:1'', [\<lparr>Status = ''PASS''\<rparr>])])]]"
    by (simp_all add: demo_defs)
  show ?thesis
    using getReport_integrity_errors [OF req dec(1)]
      getReport_integrity_errors [OF req dec(2)]
      getReport_integrity_errors [OF req dec(3), of "''sha256:bb''" "''db:2''"]
    by simp
qed

text \<open>
  C7: when the entry for the queried digest holds no tag at all, \<open>getReport\<close> is
  expected to return a descriptive error. The code takes the first of the entry's keys
  without a check, and panics. On the registry, for the image \<open>job:4\<close>, whose report
  is \<^verbatim>\<open>[{"sha256:dd":{}}]\<close>:
\<close>

theorem getReport_missing_tag_panics:
  "getReport registryEngine demoClient ''sha256:dd'' ''job:4'' startWorld
     = (Panics ''index out of range [0] with length 0'',
        \<lparr>remote = 1, events = [EvRequest (reportRequest demoClient ''sha256:dd'' ''job:4'')]\<rparr>)"
  by (simp add: run_defs reportRequest_def)

section \<open>Response status\<close>

text \<open>
  C8: every response other than one with status 200 and a readable body makes
  \<open>anchoreRequest\<close> return an error and a nil body; status 404 gives exactly the error
  \<open>errNotFound\<close>; and \<open>getReport\<close> hands that error to its caller after its single
  request, with no sleep and no second request.
\<close>

theorem non200_is_error:
  "(newRequestErr E method (baseUrl c @ path) = None
      \<and> fst (send E (buildRequest c path params method) (remote w)) = resp
      \<and> (\<forall>body. resp \<noteq> Responds 200 body)
     \<longrightarrow> (\<exists>e. fst (anchoreRequest E c path params method w) = Returns ([], Some e)))
   \<and> (newRequestErr E method (baseUrl c @ path) = None
      \<and> fst (send E (buildRequest c path params method) (remote w)) = Responds 404 body
     \<longrightarrow> fst (anchoreRequest E c path params method w) = Returns ([], Some errNotFound))
   \<and> (newRequestErr E ''GET'' (baseUrl c @ reportPath digest tag) = None
      \<and> send E (reportRequest c digest tag) (remote w) = (Responds 404 body, s')
     \<longrightarrow> getReport E c digest tag w =
          (Returns (None, Some errNotFound),
           w\<lparr>remote := s', events := events w @ [EvRequest (reportRequest c digest tag)]\<rparr>))"
proof (intro conjI impI)
  assume h: "newRequestErr E method (baseUrl c @ path) = None
      \<and> fst (send E (buildRequest c path params method) (remote w)) = resp
      \<and> (\<forall>body. resp \<noteq> Responds 200 body)"
  obtain s' where s: "send E (buildRequest c path params method) (remote w) = (resp, s')"
    using h by (cases "send E (buildRequest c path params method) (remote w)") auto
  show "\<exists>e. fst (anchoreRequest E c path params method w) = Returns ([], Some e)"
    using h by (cases resp) (simp_all add: anchoreRequest_sends [OF _ s])
next
  assume h: "newRequestErr E method (baseUrl c @ path) = None
      \<and> fst (send E (buildRequest c path params method) (remote w)) = Responds 404 body"
  obtain s' where s: "send E (buildRequest c path params method) (remote w) = (Responds 404 body, s')"
    using h by (cases "send E (buildRequest c path params method) (remote w)") auto
  show "fst (anchoreRequest E c path params method w) = Returns ([], Some errNotFound)"
    using h by (simp add: anchoreRequest_sends [OF _ s] errNotFound_def string_of_int_404)
next
  assume h: "newRequestErr E ''GET'' (baseUrl c @ reportPath digest tag) = None
      \<and> send E (reportRequest c digest tag) (remote w) = (Responds 404 body, s')"
  then have s: "send E (buildRequest c (reportPath digest tag) [] ''GET'') (remote w)
                  = (Responds 404 body, s')"
    by (simp add: reportRequest_def)
  have "anchoreRequest E c (reportPath digest tag) [] ''GET'' w =
          (Returns ([], Some errNotFound),
           w\<lparr>remote := s', events := events w @ [EvRequest (reportRequest c digest tag)]\<rparr>)"
    using h by (simp add: anchoreRequest_sends [OF _ s] errNotFound_def string_of_int_404
        reportRequest_def)
  then show "getReport E c digest tag w =
          (Returns (None, Some errNotFound),
           w\<lparr>remote := s', events := events w @ [EvRequest (reportRequest c digest tag)]\<rparr>)"
    by (simp add: getReport_def reportPath_def)
qed

text \<open>
  On the registry, which does not know the image \<open>ghost:0\<close> and answers 404 to both
  the digest query and the report query.
\<close>

theorem non200_is_error_witness:
  "newRequestErr registryEngine ''GET'' (baseUrl demoClient @ ''/images'') = None
   \<and> fst (send registryEngine (digestRequest demoClient ''ghost:0'') (remote startWorld))
       = Responds 404 []
   \<and> fst (anchoreRequest registryEngine demoClient ''/images''
            [(''tag'', ''ghost:0''), (''history'', ''true'')] ''GET'' startWorld)
       = Returns ([], Some errNotFound)
   \<and> send registryEngine (reportRequest demoClient ''sha256:ee'' ''ghost:0'') (remote startWorld)
       = (Responds 404 [], 1)
   \<and> getReport registryEngine demoClient ''sha256:ee'' ''ghost:0'' startWorld
       = (Returns (None, Some errNotFound),
          \<lparr>remote = 1,
           events = [EvRequest (reportRequest demoClient ''sha256:ee'' ''ghost:0'')]\<rparr>)"
proof -
  have a: "newRequestErr registryEngine m u = None" for m u
    by (simp add: demo_defs)
  have b: "send registryEngine (digestRequest demoClient ''ghost:0'') (remote startWorld)
             = (Responds 404 [], 1)"
    by (simp add: demo_defs digestRequest_def buildRequest_def)
  have c: "send registryEngine (reportRequest demoClient ''sha256:ee'' ''ghost:0'')
             (remote startWorld) = (Responds 404 [], 1)"
    by (simp add: demo_defs reportRequest_def buildRequest_def reportPath_def)
  show ?thesis
    using a b c
      non200_is_error [of registryEngine "''GET''" demoClient "''/images''"
        "[(''tag'', ''ghost:0''), (''history'', ''true'')]" startWorld "Responds 404 []" "[]"
        "''sha256:ee''" "''ghost:0''" 1]
    by (simp add: digestRequest_def startWorld_def)
qed

section \<open>Digest resolution\<close>

text \<open>
  C9: on a successful response whose body decodes to a list of image records,
  \<open>getDigest\<close> returns the digest of the first record when the list is not empty; when
  the list is empty, the index into it panics and \<open>getDigest\<close> returns nothing, neither
  a digest nor an error.
\<close>

theorem getDigest_first_record:
  assumes "anchoreRequest E c ''/images'' [(''tag'', imageRef), (''history'', ''true'')] ''GET'' w
             = (Returns (body, None), w')"
    and "unmarshalImages E body = Inr images"
  shows "(images \<noteq> [] \<longrightarrow>
            getDigest E c imageRef w = (Returns (ImageDigest (hd images), None), w'))
       \<and> (images = [] \<longrightarrow>
            getDigest E c imageRef w = (Panics ''index out of range [0] with length 0'', w')
            \<and> (\<forall>r. fst (getDigest E c imageRef w) \<noteq> Returns r))"
  using assms by (simp add: getDigest_def split: list.splits)

text \<open>
  On an engine that lists one image record, and on one that lists none.
\<close>

theorem getDigest_first_record_witness:
  "getDigest (constEngine imagesAA) demoClient ''app:1'' startWorld
     = (Returns (''sha256:aa'', None),
        \<lparr>remote = 1, events = [EvRequest (digestRequest demoClient ''app:1'')]\<rparr>)
   \<and> getDigest (constEngine ''[]'') demoClient ''void:5'' startWorld
     = (Panics ''index out of range [0] with length 0'',
        \<lparr>remote = 1, events = [EvRequest (digestRequest demoClient ''void:5'')]\<rparr>)
   \<and> (\<forall>r. fst (getDigest (constEngine ''[]'') demoClient ''void:5'' startWorld) \<noteq> Returns r)"
proof -
  have req: "anchoreRequest (constEngine body) demoClient ''/images''
               [(''tag'', i), (''history'', ''true'')] ''GET'' startWorld
               = (Returns (body, None),
                  \<lparr>remote = 1, events = [EvRequest (digestRequest demoClient i)]\<rparr>)" for body i
    by (simp add: constEngine_request digestRequest_def)
  have dec:
    "unmarshalImages (constEngine imagesAA) imagesAA = Inr [\<lparr>ImageDigest = ''sha256:aa''\<rparr>]"
    "unmarshalImages (constEngine ''[]'') ''[]'' = Inr []"
    by (simp_all add: demo_defs)
  show ?thesis
    using getDigest_first_record [OF req dec(1)] getDigest_first_record [OF req dec(2)]
    by simp
qed

section \<open>The admission response\<close>

text \<open>
  C10: for every request UID and every non-nil error, \<open>toAdmissionResponse\<close> returns a
  response that is not allowed, carries the given UID, and has the error's text as the
  message of its result.
\<close>

theorem toAdmissionResponse_denies:
  "toAdmissionResponse uid (Some m) =
     Returns \<lparr>UID = uid, Allowed = False, Result = Some \<lparr>Message = m\<rparr>\<rparr>"
  by (simp add: toAdmissionResponse_def)

section \<open>Fail-closed checking\<close>

text \<open>
  C3: when \<open>GetImageDigest\<close> returns an error, \<open>CheckImage\<close> returns \<open>false\<close> with
  the error \<open>Unable to obtain image digest\<close>; when the verdict step returns an error,
  \<open>CheckImage\<close> returns \<open>false\<close> with that error; and \<open>CheckImage\<close> never returns
  \<open>true\<close> with a non-nil error: when it returns \<open>true\<close>, the digest was obtained
  without error and the report fetch returned a report whose status is \<open>pass\<close>.
\<close>

theorem CheckImage_fail_closed:
  "(GetImageDigest E c img w = (Returns (digest, Some e), w1) \<longrightarrow>
      CheckImage E c img w = (Returns (False, Some ''Unable to obtain image digest''), w1))
   \<and> (GetImageDigest E c img w = (Returns (digest, None), w1)
        \<and> getStatus E c digest img w1 = (Returns (b, Some e), w2) \<longrightarrow>
      b = False \<and> CheckImage E c img w = (Returns (False, Some e), w2))
   \<and> (CheckImage E c img w = (Returns (True, err), w3) \<longrightarrow>
      err = None
      \<and> (\<exists>d wd r. GetImageDigest E c img w = (Returns (d, None), wd)
            \<and> getReport E c d img wd = (Returns (Some r, None), w3)
            \<and> equalIgnoringCase (Status r) ''pass''))"
proof -
  have p1: "CheckImage E c img w = (Returns (False, Some ''Unable to obtain image digest''), w1)"
    if "GetImageDigest E c img w = (Returns (digest, Some e), w1)"
    using that by (simp add: CheckImage_def)
  have p2: "b = False \<and> CheckImage E c img w = (Returns (False, Some e), w2)"
    if g: "GetImageDigest E c img w = (Returns (digest, None), w1)"
      and s: "getStatus E c digest img w1 = (Returns (b, Some e), w2)"
  proof -
    have "fst (getStatus E c digest img w1) = Returns (b, Some e)"
      using s by simp
    from getStatus_results [OF this] have "b = False" by simp
    with g s show ?thesis by (simp add: CheckImage_def)
  qed
  have p3: "err = None
      \<and> (\<exists>d wd r. GetImageDigest E c img w = (Returns (d, None), wd)
            \<and> getReport E c d img wd = (Returns (Some r, None), w3)
            \<and> equalIgnoringCase (Status r) ''pass'')"
    if h: "CheckImage E c img w = (Returns (True, err), w3)"
  proof -
    from h obtain d wd where g: "GetImageDigest E c img w = (Returns (d, None), wd)"
      and s: "getStatus E c d img wd = (Returns (True, err), w3)"
      by (auto simp: CheckImage_def split: prod.splits outcome.splits if_splits)
    from getStatus_True [OF s] g show ?thesis
      by (auto simp: ToLower_is_pass)
  qed
  show ?thesis
    using p1 p2 p3 by blast
qed

text \<open>
  On the registry: \<open>ghost:0\<close> is unknown, so no digest is obtained; \<open>db:2\<close> fails its
  scan; \<open>app:1\<close> passes.
\<close>

theorem CheckImage_fail_closed_witness:
  "fst (GetImageDigest registryEngine demoClient ''ghost:0'' startWorld)
     = Returns ([], Some errNotFound)
   \<and> fst (CheckImage registryEngine demoClient ''ghost:0'' startWorld)
     = Returns (False, Some ''Unable to obtain image digest'')
   \<and> fst (GetImageDigest registryEngine demoClient ''db:2'' startWorld)
     = Returns (''sha256:bb'', None)
   \<and> fst (getStatus registryEngine demoClient ''sha256:bb'' ''db:2''
          (snd (GetImageDigest registryEngine demoClient ''db:2'' startWorld)))
     = Returns (False, Some ''Scan result is FAILED'')
   \<and> fst (CheckImage registryEngine demoClient ''db:2'' startWorld)
     = Returns (False, Some ''Scan result is FAILED'')
   \<and> fst (CheckImage registryEngine demoClient ''app:1'' startWorld) = Returns (True, None)
   \<and> (\<exists>d wd r. GetImageDigest registryEngine demoClient ''app:1'' startWorld
                   = (Returns (d, None), wd)
          \<and> fst (getReport registryEngine demoClient d ''app:1'' wd) = Returns (Some r, None)
          \<and> equalIgnoringCase (Status r) ''pass'')"
proof -
  let ?R = registryEngine
  let ?w1 = "snd (GetImageDigest ?R demoClient ''ghost:0'' startWorld)"
  let ?w2 = "snd (GetImageDigest ?R demoClient ''db:2'' startWorld)"
  let ?w3 = "snd (getStatus ?R demoClient ''sha256:bb'' ''db:2'' ?w2)"
  let ?w4 = "snd (CheckImage ?R demoClient ''app:1'' startWorld)"
  have a: "GetImageDigest ?R demoClient ''ghost:0'' startWorld
             = (Returns ([], Some errNotFound), ?w1)"
    by (rule pair_fst_snd [OF registry_ghost_digest])
  have b: "GetImageDigest ?R demoClient ''db:2'' startWorld
             = (Returns (''sha256:bb'', None), ?w2)"
    by (rule pair_fst_snd [OF registry_db_digest])
  have c: "getStatus ?R demoClient ''sha256:bb'' ''db:2'' ?w2
             = (Returns (False, Some ''Scan result is FAILED''), ?w3)"
    by (rule pair_fst_snd [OF registry_db_status])
  have d: "CheckImage ?R demoClient ''app:1'' startWorld = (Returns (True, None), ?w4)"
    by (rule pair_fst_snd [OF registry_app_check])
  have "CheckImage ?R demoClient ''ghost:0'' startWorld
          = (Returns (False, Some ''Unable to obtain image digest''), ?w1)"
    using a CheckImage_fail_closed [where E = ?R and c = demoClient and img = "''ghost:0''"
        and w = startWorld and digest = "[]" and e = errNotFound and ?w1.0 = ?w1]
    by blast
  then have 1: "fst (CheckImage ?R demoClient ''ghost:0'' startWorld)
          = Returns (False, Some ''Unable to obtain image digest'')"
    by simp
  have "CheckImage ?R demoClient ''db:2'' startWorld
          = (Returns (False, Some ''Scan result is FAILED''), ?w3)"
    using b c CheckImage_fail_closed [where E = ?R and c = demoClient and img = "''db:2''"
        and w = startWorld and digest = "''sha256:bb''" and e = "''Scan result is FAILED''"
        and ?w1.0 = ?w2 and b = False and ?w2.0 = ?w3]
    by blast
  then have 2: "fst (CheckImage ?R demoClient ''db:2'' startWorld)
          = Returns (False, Some ''Scan result is FAILED'')"
    by simp
  have "\<exists>d wd r. GetImageDigest ?R demoClient ''app:1'' startWorld = (Returns (d, None), wd)
          \<and> getReport ?R demoClient d ''app:1'' wd = (Returns (Some r, None), ?w4)
          \<and> equalIgnoringCase (Status r) ''pass''"
    using d CheckImage_fail_closed [where E = ?R and c = demoClient and img = "''app:1''"
        and w = startWorld and err = None and ?w3.0 = ?w4]
    by blast
  then have 3: "\<exists>d wd r. GetImageDigest ?R demoClient ''app:1'' startWorld
                   = (Returns (d, None), wd)
          \<and> fst (getReport ?R demoClient d ''app:1'' wd) = Returns (Some r, None)
          \<and> equalIgnoringCase (Status r) ''pass''"
    by force
  show ?thesis
    using registry_ghost_digest registry_db_digest [of startWorld]
      registry_db_status [of ?w2] registry_app_check [of startWorld] 1 2 3
    by blast
qed

section \<open>The bounded retry of digest resolution\<close>

text \<open>
  C2: \<open>GetImageDigest\<close> never sends more than 6 requests after the registration.
  After a successful registration it makes at most 6 digest-resolution attempts, with
  a sleep of one second between two attempts and none after the last. Its
  result is the result of attempt \<open>k\<close> for some \<open>k\<close> below 6 (counted from 0), where
  all attempts before \<open>k\<close> failed and attempt \<open>k\<close> is the first that did not fail, or
  \<open>k\<close> is 5: it returns at once on the first attempt that does not fail, and after
  six failed attempts it returns the last error. The loop is a total function, so it
  always ends.
\<close>

theorem GetImageDigest_bounded_retry:
  "requestsSince (snd (addImage E c img w)) (snd (GetImageDigest E c img w)) \<le> 6
   \<and> (addImage E c img w = (Returns None, w0) \<longrightarrow>
        (\<exists>k<6.
           GetImageDigest E c img w = getDigest E c img (attemptWorld E c img w0 k)
         \<and> (\<forall>j<k. failed (fst (getDigest E c img (attemptWorld E c img w0 j))))
         \<and> (k < 5 \<longrightarrow> \<not> failed (fst (getDigest E c img (attemptWorld E c img w0 k))))
         \<and> (newRequestErr E ''GET'' (baseUrl c @ ''/images'') = None \<longrightarrow>
              events (snd (GetImageDigest E c img w))
                = events w0 @ retryEvents (digestRequest c img) k)))"
proof (rule conjI)
  show "requestsSince (snd (addImage E c img w)) (snd (GetImageDigest E c img w)) \<le> 6"
    by (rule GetImageDigest_requests)
next
  show "addImage E c img w = (Returns None, w0) \<longrightarrow>
        (\<exists>k<6.
           GetImageDigest E c img w = getDigest E c img (attemptWorld E c img w0 k)
         \<and> (\<forall>j<k. failed (fst (getDigest E c img (attemptWorld E c img w0 j))))
         \<and> (k < 5 \<longrightarrow> \<not> failed (fst (getDigest E c img (attemptWorld E c img w0 k))))
         \<and> (newRequestErr E ''GET'' (baseUrl c @ ''/images'') = None \<longrightarrow>
              events (snd (GetImageDigest E c img w))
                = events w0 @ retryEvents (digestRequest c img) k))"
  proof
    assume a: "addImage E c img w = (Returns None, w0)"
    have g: "GetImageDigest E c img w = getDigestLoop E c img 0 w0"
      by (rule GetImageDigest_registered [OF a])
    obtain k where k: "k < 6"
      "getDigestLoop E c img 0 w0 = getDigest E c img (attemptWorld E c img w0 k)"
      "\<forall>j<k. failed (fst (getDigest E c img (attemptWorld E c img w0 j)))"
      "k < 5 \<longrightarrow> \<not> failed (fst (getDigest E c img (attemptWorld E c img w0 k)))"
      using getDigestLoop_result [of E c img w0] by blast
    have e: "newRequestErr E ''GET'' (baseUrl c @ ''/images'') = None \<longrightarrow>
              events (snd (GetImageDigest E c img w))
                = events w0 @ retryEvents (digestRequest c img) k"
      by (simp add: g k(2) attempt_events)
    show "\<exists>k<6.
           GetImageDigest E c img w = getDigest E c img (attemptWorld E c img w0 k)
         \<and> (\<forall>j<k. failed (fst (getDigest E c img (attemptWorld E c img w0 j))))
         \<and> (k < 5 \<longrightarrow> \<not> failed (fst (getDigest E c img (attemptWorld E c img w0 k))))
         \<and> (newRequestErr E ''GET'' (baseUrl c @ ''/images'') = None \<longrightarrow>
              events (snd (GetImageDigest E c img w))
                = events w0 @ retryEvents (digestRequest c img) k)"
      using k e by (intro exI [of _ k]) (simp add: g)
  qed
qed

text \<open>
  On the registry that answers its second request with status 500: the registration
  succeeds, the first attempt fails, the second succeeds.
\<close>

theorem GetImageDigest_bounded_retry_witness:
  "addImage flakyEngine demoClient ''app:1'' startWorld =
     (Returns None, \<lparr>remote = 1, events = [EvRequest (registerRequest demoClient ''app:1'')]\<rparr>)
   \<and> (\<exists>k<6.
         GetImageDigest flakyEngine demoClient ''app:1'' startWorld =
           getDigest flakyEngine demoClient ''app:1''
             (attemptWorld flakyEngine demoClient ''app:1''
               \<lparr>remote = 1, events = [EvRequest (registerRequest demoClient ''app:1'')]\<rparr> k)
       \<and> events (snd (GetImageDigest flakyEngine demoClient ''app:1'' startWorld)) =
           [EvRequest (registerRequest demoClient ''app:1'')]
             @ retryEvents (digestRequest demoClient ''app:1'') k)
   \<and> requestsSince
         \<lparr>remote = 1, events = [EvRequest (registerRequest demoClient ''app:1'')]\<rparr>
         (snd (GetImageDigest flakyEngine demoClient ''app:1'' startWorld)) \<le> 6"
proof -
  let ?w0 = "\<lparr>remote = 1::nat, events = [EvRequest (registerRequest demoClient ''app:1'')]\<rparr>"
  have a: "addImage flakyEngine demoClient ''app:1'' startWorld = (Returns None, ?w0)"
    by (rule flaky_addImage)
  have n: "newRequestErr flakyEngine ''GET'' (baseUrl demoClient @ ''/images'') = None"
    by (simp add: demo_defs)
  note t = GetImageDigest_bounded_retry [of flakyEngine demoClient "''app:1''" startWorld ?w0]
  have r: "requestsSince ?w0 (snd (GetImageDigest flakyEngine demoClient ''app:1'' startWorld))
             \<le> 6"
    using t [THEN conjunct1] by (simp add: a)
  from t [THEN conjunct2, rule_format, OF a] obtain k where k: "k < 6"
    "GetImageDigest flakyEngine demoClient ''app:1'' startWorld =
           getDigest flakyEngine demoClient ''app:1''
             (attemptWorld flakyEngine demoClient ''app:1'' ?w0 k)"
    "newRequestErr flakyEngine ''GET'' (baseUrl demoClient @ ''/images'') = None \<longrightarrow>
       events (snd (GetImageDigest flakyEngine demoClient ''app:1'' startWorld))
         = events ?w0 @ retryEvents (digestRequest demoClient ''app:1'') k"
    by auto
  have "\<exists>k<6.
         GetImageDigest flakyEngine demoClient ''app:1'' startWorld =
           getDigest flakyEngine demoClient ''app:1''
             (attemptWorld flakyEngine demoClient ''app:1'' ?w0 k)
       \<and> events (snd (GetImageDigest flakyEngine demoClient ''app:1'' startWorld)) =
           [EvRequest (registerRequest demoClient ''app:1'')]
             @ retryEvents (digestRequest demoClient ''app:1'') k"
    using k n by (intro exI [of _ k]) simp
  with a r show ?thesis by simp
qed

section \<open>Which failures are retried\<close>

text \<open>
  C5, as the code has it: after a successful registration, a failed digest-resolution
  attempt is followed by a sleep of one second and another attempt whatever its error
  is, NotFound or any other, as long as fewer than 6 attempts have been made; and
  \<open>GetImageDigest\<close> returns a digest-resolution error to its caller only when all 6
  attempts have failed, and then it is the error of the sixth attempt.
\<close>

theorem GetImageDigest_retries_any_failure:
  assumes "addImage E c img w = (Returns None, w0)"
  shows "(\<forall>k<5. (\<forall>j\<le>k. failed (fst (getDigest E c img (attemptWorld E c img w0 j)))) \<longrightarrow>
            GetImageDigest E c img w =
              getDigestLoop E c img (Suc k)
                (sleepSecond (snd (getDigest E c img (attemptWorld E c img w0 k)))))
       \<and> (GetImageDigest E c img w = (Returns (d, Some e), w') \<longrightarrow>
            (\<forall>j<6. failed (fst (getDigest E c img (attemptWorld E c img w0 j))))
            \<and> getDigest E c img (attemptWorld E c img w0 5) = (Returns (d, Some e), w'))"
proof -
  have g: "GetImageDigest E c img w = getDigestLoop E c img 0 w0"
    using assms by (simp add: GetImageDigest_def)
  have 1: "GetImageDigest E c img w =
              getDigestLoop E c img (Suc k)
                (sleepSecond (snd (getDigest E c img (attemptWorld E c img w0 k))))"
    if "k < 5" "\<forall>j\<le>k. failed (fst (getDigest E c img (attemptWorld E c img w0 j)))" for k
  proof -
    have "getDigestLoop E c img 0 w0 =
            getDigestLoop E c img (0 + Suc k) (attemptWorld E c img w0 (Suc k))"
      using that by (intro getDigestLoop_skip) auto
    then show ?thesis by (simp add: g)
  qed
  have 2: "(\<forall>j<6. failed (fst (getDigest E c img (attemptWorld E c img w0 j))))
            \<and> getDigest E c img (attemptWorld E c img w0 5) = (Returns (d, Some e), w')"
    if h: "GetImageDigest E c img w = (Returns (d, Some e), w')"
  proof -
    obtain k where k: "k < 6"
      "getDigestLoop E c img 0 w0 = getDigest E c img (attemptWorld E c img w0 k)"
      "\<forall>j<k. failed (fst (getDigest E c img (attemptWorld E c img w0 j)))"
      "k < 5 \<longrightarrow> \<not> failed (fst (getDigest E c img (attemptWorld E c img w0 k)))"
      using getDigestLoop_result [of E c img w0] by blast
    have res: "getDigest E c img (attemptWorld E c img w0 k) = (Returns (d, Some e), w')"
      using h g k(2) by simp
    then have fk: "failed (fst (getDigest E c img (attemptWorld E c img w0 k)))"
      by (simp add: failed_def)
    with k(1,4) have "k = 5" by auto
    with k(3) fk res show ?thesis
      by (auto simp: less_Suc_eq numeral_eq_Suc)
  qed
  show ?thesis using 1 2 by blast
qed

text \<open>
  On the engine that answers every digest query with status 500, an error other than
  NotFound: six attempts are made, and the error of the sixth is returned.
\<close>

theorem GetImageDigest_retries_any_failure_witness:
  "addImage downEngine demoClient ''app:1'' startWorld =
     (Returns None, \<lparr>remote = 1, events = [EvRequest (registerRequest demoClient ''app:1'')]\<rparr>)
   \<and> GetImageDigest downEngine demoClient ''app:1'' startWorld =
     (Returns ([], Some ''response from Anchore: 500''),
      \<lparr>remote = 7,
       events = EvRequest (registerRequest demoClient ''app:1'')
                # retryEvents (digestRequest demoClient ''app:1'') 5\<rparr>)
   \<and> ''response from Anchore: 500'' \<noteq> errNotFound
   \<and> failed (fst (getDigest downEngine demoClient ''app:1''
          \<lparr>remote = 1, events = [EvRequest (registerRequest demoClient ''app:1'')]\<rparr>))
   \<and> getDigest downEngine demoClient ''app:1''
         (attemptWorld downEngine demoClient ''app:1''
           \<lparr>remote = 1, events = [EvRequest (registerRequest demoClient ''app:1'')]\<rparr> 5) =
       (Returns ([], Some ''response from Anchore: 500''),
        \<lparr>remote = 7,
         events = EvRequest (registerRequest demoClient ''app:1'')
                  # retryEvents (digestRequest demoClient ''app:1'') 5\<rparr>)
   \<and> GetImageDigest downEngine demoClient ''app:1'' startWorld =
       getDigestLoop downEngine demoClient ''app:1'' 1
         (sleepSecond (snd (getDigest downEngine demoClient ''app:1''
            \<lparr>remote = 1, events = [EvRequest (registerRequest demoClient ''app:1'')]\<rparr>)))"
proof -
  let ?w0 = "\<lparr>remote = 1::nat, events = [EvRequest (registerRequest demoClient ''app:1'')]\<rparr>"
  let ?wE = "\<lparr>remote = 7::nat,
       events = EvRequest (registerRequest demoClient ''app:1'')
                # retryEvents (digestRequest demoClient ''app:1'') 5\<rparr>"
  note t = GetImageDigest_retries_any_failure [OF down_addImage [of "''app:1''"],
      where d = "[]" and e = "''response from Anchore: 500''" and w' = ?wE]
  have all: "\<forall>j<6. failed (fst (getDigest downEngine demoClient ''app:1''
                  (attemptWorld downEngine demoClient ''app:1'' ?w0 j)))"
    using t down_GetImageDigest by blast
  have last: "getDigest downEngine demoClient ''app:1''
                (attemptWorld downEngine demoClient ''app:1'' ?w0 5) =
              (Returns ([], Some ''response from Anchore: 500''), ?wE)"
    using t down_GetImageDigest by blast
  have zero: "failed (fst (getDigest downEngine demoClient ''app:1'' ?w0))"
    using all [rule_format, of 0] by simp
  have "\<forall>j\<le>0. failed (fst (getDigest downEngine demoClient ''app:1''
                  (attemptWorld downEngine demoClient ''app:1'' ?w0 j)))"
    using all [rule_format, of 0] by simp
  then have "GetImageDigest downEngine demoClient ''app:1'' startWorld =
       getDigestLoop downEngine demoClient ''app:1'' (Suc 0)
         (sleepSecond (snd (getDigest downEngine demoClient ''app:1''
            (attemptWorld downEngine demoClient ''app:1'' ?w0 0))))"
    using t by (metis zero_less_numeral)
  then have first: "GetImageDigest downEngine demoClient ''app:1'' startWorld =
       getDigestLoop downEngine demoClient ''app:1'' 1
         (sleepSecond (snd (getDigest downEngine demoClient ''app:1'' ?w0)))"
    by simp
  have ne: "''response from Anchore: 500'' \<noteq> errNotFound"
    by (simp add: errNotFound_def)
  show ?thesis
    using down_addImage [of "''app:1''"] down_GetImageDigest ne zero last first by blast
qed

text \<open>
  C5, as the claim states it, fails: on the registry that answers its second request
  with status 500, the first digest-resolution attempt fails with an error that is not
  NotFound; this error is not returned to the caller: the client sleeps one second,
  asks again, and returns the digest.
\<close>

theorem other_failure_returned_counterexample:
  "addImage flakyEngine demoClient ''app:1'' startWorld =
     (Returns None, \<lparr>remote = 1, events = [EvRequest (registerRequest demoClient ''app:1'')]\<rparr>)
   \<and> getDigest flakyEngine demoClient ''app:1''
       \<lparr>remote = 1, events = [EvRequest (registerRequest demoClient ''app:1'')]\<rparr> =
     (Returns ([], Some ''response from Anchore: 500''),
      \<lparr>remote = 2,
       events = [EvRequest (registerRequest demoClient ''app:1''),
                 EvRequest (digestRequest demoClient ''app:1'')]\<rparr>)
   \<and> ''response from Anchore: 500'' \<noteq> errNotFound
   \<and> GetImageDigest flakyEngine demoClient ''app:1'' startWorld =
     (Returns (''sha256:aa'', None),
      \<lparr>remote = 3,
       events = [EvRequest (registerRequest demoClient ''app:1''),
                 EvRequest (digestRequest demoClient ''app:1''), EvSleep 1,
                 EvRequest (digestRequest demoClient ''app:1'')]\<rparr>)
   \<and> fst (GetImageDigest flakyEngine demoClient ''app:1'' startWorld)
       \<noteq> Returns ([], Some ''response from Anchore: 500'')"
  using flaky_addImage [of "''app:1''"] flaky_first_attempt flaky_GetImageDigest
  by (simp add: errNotFound_def)

section \<open>Admission of a pod\<close>

text \<open>
  C4: the evaluator admits a pod if and only if every image of the pod's list, checked
  with \<open>CheckImage\<close> in declaration order, passes, that is, returns \<open>(true, nil)\<close>;
  the decision is then an allow without a reason. When some image does not pass, the
  evaluator answers on the first such image in declaration order: a deny with that
  image's reason when its check returns, and no decision at all when its check panics
  or exits. The images after it are of no influence.
\<close>

theorem evaluatePod_admits_iff_all_pass:
  "((\<exists>d. fst (evaluatePod E c imgs w) = Returns d \<and> decisionAllowed d)
      \<longleftrightarrow> (\<forall>k<length imgs. fst (checkAt E c imgs w k) = Returns (True, None)))
   \<and> ((\<forall>k<length imgs. fst (checkAt E c imgs w k) = Returns (True, None))
      \<longrightarrow> fst (evaluatePod E c imgs w)
            = Returns \<lparr>decisionAllowed = True, decisionReason = None\<rparr>)
   \<and> (k < length imgs
        \<and> (\<forall>j<k. fst (checkAt E c imgs w j) = Returns (True, None))
        \<and> fst (checkAt E c imgs w k) \<noteq> Returns (True, None)
      \<longrightarrow> fst (evaluatePod E c imgs w) =
            (case fst (checkAt E c imgs w k) of
               Returns (ok, err) \<Rightarrow> Returns \<lparr>decisionAllowed = False, decisionReason = err\<rparr>
             | Panics p \<Rightarrow> Panics p
             | Exits e \<Rightarrow> Exits e))"
proof -
  let ?P = "\<lambda>k. fst (checkAt E c imgs w k) = Returns (True, None)"
  have allow: "fst (evaluatePod E c imgs w)
                 = Returns \<lparr>decisionAllowed = True, decisionReason = None\<rparr>"
    if "\<forall>k<length imgs. ?P k"
    using that by (rule evaluatePod_all_pass)
  have stop: "fst (evaluatePod E c imgs w) = decide (fst (checkAt E c imgs w k))"
    if "k < length imgs" "\<forall>j<k. ?P j" "\<not> ?P k" for k
    using that by (rule evaluatePod_first_stop)
  have only: "\<forall>k<length imgs. ?P k"
    if adm: "\<exists>d. fst (evaluatePod E c imgs w) = Returns d \<and> decisionAllowed d"
  proof (rule ccontr)
    assume "\<not> (\<forall>k<length imgs. ?P k)"
    then obtain j where j: "j < length imgs" "\<not> ?P j" by blast
    define k where "k = (LEAST j. \<not> ?P j)"
    have nk: "\<not> ?P k" unfolding k_def using j(2) by (rule LeastI)
    have kj: "k \<le> j" unfolding k_def using j(2) by (rule Least_le)
    have before: "\<forall>i<k. ?P i" unfolding k_def using not_less_Least by blast
    have "fst (evaluatePod E c imgs w) = decide (fst (checkAt E c imgs w k))"
      using kj j(1) before nk by (intro stop) auto
    with adm decide_not_allowed show False by metis
  qed
  have 1: "(\<exists>d. fst (evaluatePod E c imgs w) = Returns d \<and> decisionAllowed d)
      \<longleftrightarrow> (\<forall>k<length imgs. ?P k)"
  proof
    assume "\<exists>d. fst (evaluatePod E c imgs w) = Returns d \<and> decisionAllowed d"
    then show "\<forall>k<length imgs. ?P k" by (rule only)
  next
    assume "\<forall>k<length imgs. ?P k"
    from allow [OF this]
    show "\<exists>d. fst (evaluatePod E c imgs w) = Returns d \<and> decisionAllowed d" by simp
  qed
  have 3: "fst (evaluatePod E c imgs w) =
            (case fst (checkAt E c imgs w k) of
               Returns (ok, err) \<Rightarrow> Returns \<lparr>decisionAllowed = False, decisionReason = err\<rparr>
             | Panics p \<Rightarrow> Panics p
             | Exits e \<Rightarrow> Exits e)"
    if "k < length imgs \<and> (\<forall>j<k. ?P j) \<and> \<not> ?P k"
    using stop [of k] that by (simp add: decide_def)
  show ?thesis
    using 1 allow 3 by (intro conjI impI)
qed

text \<open>
  On the registry: for the list \<open>app:1\<close> (pass), \<open>db:2\<close> (fail), \<open>web:3\<close> (pass) the
  decision is a deny with the reason of \<open>db:2\<close>; for \<open>app:1\<close>, \<open>web:3\<close> it is an
  allow without a reason; for \<open>app:1\<close>, \<open>job:4\<close>, \<open>web:3\<close>, where the check of
  \<open>job:4\<close> panics, there is no decision.
\<close>

theorem evaluatePod_admits_iff_all_pass_witness:
  "fst (checkAt registryEngine demoClient [''app:1'', ''db:2'', ''web:3''] startWorld 0)
     = Returns (True, None)
   \<and> fst (checkAt registryEngine demoClient [''app:1'', ''db:2'', ''web:3''] startWorld 1)
     = Returns (False, Some ''Scan result is FAILED'')
   \<and> fst (evaluatePod registryEngine demoClient [''app:1'', ''db:2'', ''web:3''] startWorld)
     = Returns \<lparr>decisionAllowed = False, decisionReason = Some ''Scan result is FAILED''\<rparr>
   \<and> fst (checkAt registryEngine demoClient [''app:1'', ''web:3''] startWorld 0)
     = Returns (True, None)
   \<and> fst (checkAt registryEngine demoClient [''app:1'', ''web:3''] startWorld 1)
     = Returns (True, None)
   \<and> fst (evaluatePod registryEngine demoClient [''app:1'', ''web:3''] startWorld)
     = Returns \<lparr>decisionAllowed = True, decisionReason = None\<rparr>
   \<and> fst (checkAt registryEngine demoClient [''app:1'', ''job:4'', ''web:3''] startWorld 1)
     = Panics ''index out of range [0] with length 0''
   \<and> fst (evaluatePod registryEngine demoClient [''app:1'', ''job:4'', ''web:3''] startWorld)
     = Panics ''index out of range [0] with length 0''"
proof -
  let ?R = registryEngine
  let ?abc = "[''app:1'', ''db:2'', ''web:3'']"
  let ?ac = "[''app:1'', ''web:3'']"
  let ?ajc = "[''app:1'', ''job:4'', ''web:3'']"
  have before: "\<forall>j<1. fst (checkAt ?R demoClient imgs startWorld j) = Returns (True, None)"
    if "fst (checkAt ?R demoClient imgs startWorld 0) = Returns (True, None)" for imgs
    using that by simp
  have deny: "fst (evaluatePod ?R demoClient ?abc startWorld)
     = Returns \<lparr>decisionAllowed = False, decisionReason = Some ''Scan result is FAILED''\<rparr>"
    using evaluatePod_admits_iff_all_pass [of ?R demoClient ?abc startWorld 1,
        THEN conjunct2, THEN conjunct2]
      before [OF registry_checkAt(1)] registry_checkAt(2) [of startWorld]
    by simp
  have "\<forall>k<length ?ac. fst (checkAt ?R demoClient ?ac startWorld k) = Returns (True, None)"
    using registry_checkAt(3,4) [of startWorld] by (simp add: less_Suc_eq)
  then have allow: "fst (evaluatePod ?R demoClient ?ac startWorld)
     = Returns \<lparr>decisionAllowed = True, decisionReason = None\<rparr>"
    using evaluatePod_admits_iff_all_pass [of ?R demoClient ?ac startWorld 0,
        THEN conjunct2, THEN conjunct1]
    by blast
  have panic: "fst (evaluatePod ?R demoClient ?ajc startWorld)
     = Panics ''index out of range [0] with length 0''"
    using evaluatePod_admits_iff_all_pass [of ?R demoClient ?ajc startWorld 1,
        THEN conjunct2, THEN conjunct2]
      before [OF registry_checkAt(5)] registry_checkAt(6) [of startWorld]
    by simp
  show ?thesis
    using registry_checkAt [of startWorld] deny allow panic by simp
qed

end
